theory Spec2Isabelle
  imports Main
begin

section \<open>Configuration (config/schema.ts)\<close>

text \<open>
  The restriction tiers of \<^verbatim>\<open>RestrictionTierSchema\<close>, in the order of the enum:
  from the most permissive to the most restrictive.
\<close>

datatype RestrictionTier = Permissive | Cautious | Restricted | Lockdown

text \<open>
  Trust levels are JavaScript numbers; the data model fixes them to integers, so they are
  modelled as \<open>int\<close>.
\<close>

record TaintThreshold =
  minTaint :: int
  maxTaint :: int
  tier :: RestrictionTier

record TaintConfig =
  initialLevel :: int
  penaltyPerUntrustedUrl :: int
  recoveryPerTrustedUrl :: int
  minimumLevel :: int
  thresholds :: "TaintThreshold list"

section \<open>Taint tracker (taint/tracker.ts)\<close>

datatype EventType = Penalty | Recovery

record TaintEvent =
  timestamp :: int
  etype :: EventType
  amount :: int
  reason :: string
  url :: "string option"
  domain :: "string option"
  previousLevel :: int
  newLevel :: int
  etier :: RestrictionTier

record TaintState =
  level :: int
  stier :: RestrictionTier
  events :: "TaintEvent list"

text \<open>The test of the loop body of \<^verbatim>\<open>resolveTier\<close>.\<close>

definition inRange :: "int \<Rightarrow> TaintThreshold \<Rightarrow> bool" where
  "inRange l t \<longleftrightarrow> l \<ge> minTaint t \<and> l \<le> maxTaint t"

text \<open>
  \<^verbatim>\<open>[...thresholds].sort((a, b) => b.minTaint - a.minTaint)\<close>: a stable sort by
  \<open>minTaint\<close>, descending. \<open>sort_key\<close> is the stable insertion sort of the list library.
\<close>

definition sortedThresholds :: "TaintThreshold list \<Rightarrow> TaintThreshold list" where
  "sortedThresholds ths = sort_key (\<lambda>t. - minTaint t) ths"

definition resolveTier :: "int \<Rightarrow> TaintThreshold list \<Rightarrow> RestrictionTier" where
  "resolveTier l ths =
     (case find (inRange l) (sortedThresholds ths) of
        Some t \<Rightarrow> tier t
      | None \<Rightarrow> if l \<le> 0 then Lockdown else Permissive)"

definition createTaintTracker :: "TaintConfig \<Rightarrow> TaintState" where
  "createTaintTracker config =
     \<lparr> level = initialLevel config,
       stier = resolveTier (initialLevel config) (thresholds config),
       events = [] \<rparr>"

definition clampLevel :: "TaintConfig \<Rightarrow> int \<Rightarrow> int" where
  "clampLevel config l = max (minimumLevel config) (min 100 l)"

text \<open>
  The mutating operations take the state and return the event together with the new state.
  \<open>now\<close> is the reading of \<^verbatim>\<open>Date.now()\<close>.
\<close>

definition applyPenalty ::
  "TaintConfig \<Rightarrow> int \<Rightarrow> string \<Rightarrow> string option \<Rightarrow> string option \<Rightarrow> TaintState
     \<Rightarrow> TaintEvent \<times> TaintState" where
  "applyPenalty config now rsn u d state =
     (let previousLevel' = level state;
          level' = clampLevel config (level state - penaltyPerUntrustedUrl config);
          tier' = resolveTier level' (thresholds config);
          event = \<lparr> timestamp = now, etype = Penalty,
                    amount = penaltyPerUntrustedUrl config,
                    reason = rsn, url = u, domain = d,
                    previousLevel = previousLevel', newLevel = level', etier = tier' \<rparr>
      in (event, \<lparr> level = level', stier = tier', events = events state @ [event] \<rparr>))"

definition applyRecovery ::
  "TaintConfig \<Rightarrow> int \<Rightarrow> string \<Rightarrow> string option \<Rightarrow> string option \<Rightarrow> TaintState
     \<Rightarrow> TaintEvent \<times> TaintState" where
  "applyRecovery config now rsn u d state =
     (if recoveryPerTrustedUrl config = 0 then
        (\<lparr> timestamp = now, etype = Recovery, amount = 0,
           reason = rsn, url = u, domain = d,
           previousLevel = level state, newLevel = level state, etier = stier state \<rparr>,
         state)
      else
        (let previousLevel' = level state;
             level' = clampLevel config (level state + recoveryPerTrustedUrl config);
             tier' = resolveTier level' (thresholds config);
             event = \<lparr> timestamp = now, etype = Recovery,
                       amount = recoveryPerTrustedUrl config,
                       reason = rsn, url = u, domain = d,
                       previousLevel = previousLevel', newLevel = level', etier = tier' \<rparr>
         in (event, \<lparr> level = level', stier = tier', events = events state @ [event] \<rparr>)))"

definition reset :: "TaintConfig \<Rightarrow> TaintState \<Rightarrow> TaintState" where
  "reset config state =
     \<lparr> level = initialLevel config,
       stier = resolveTier (initialLevel config) (thresholds config),
       events = [] \<rparr>"

definition getLevel :: "TaintState \<Rightarrow> int" where
  "getLevel state = level state"

definition getTier :: "TaintState \<Rightarrow> RestrictionTier" where
  "getTier state = stier state"

text \<open>A call of one of the three mutating methods of the tracker, with its arguments.\<close>

datatype TrackerCall =
    CallPenalty int string "string option" "string option"
  | CallRecovery int string "string option" "string option"
  | CallReset

fun call :: "TaintConfig \<Rightarrow> TrackerCall \<Rightarrow> TaintState \<Rightarrow> TaintState" where
  "call config (CallPenalty now rsn u d) state = snd (applyPenalty config now rsn u d state)"
| "call config (CallRecovery now rsn u d) state = snd (applyRecovery config now rsn u d state)"
| "call config CallReset state = reset config state"

fun calls :: "TaintConfig \<Rightarrow> TrackerCall list \<Rightarrow> TaintState \<Rightarrow> TaintState" where
  "calls config [] state = state"
| "calls config (c # cs) state = calls config cs (call config c state)"

section \<open>Tier configurations\<close>






text \<open>The default thresholds of \<^verbatim>\<open>TaintConfigSchema\<close>.\<close>

definition defaultThresholds :: "TaintThreshold list" where
  "defaultThresholds =
    [\<lparr> minTaint = 75, maxTaint = 100, tier = Permissive \<rparr>,
     \<lparr> minTaint = 50, maxTaint = 74, tier = Cautious \<rparr>,
     \<lparr> minTaint = 25, maxTaint = 49, tier = Restricted \<rparr>,
     \<lparr> minTaint = 0, maxTaint = 24, tier = Lockdown \<rparr>]"

section \<open>Strings\<close>

text \<open>
  Strings are lists of characters, and the model is that of ASCII text: \<open>toLowerCase\<close>
  maps \<open>A\<close>..\<open>Z\<close> to \<open>a\<close>..\<open>z\<close> and leaves every other character alone, and the white
  space of \<^verbatim>\<open>trim\<close> and of \<^verbatim>\<open>\s\<close> is tab, line feed, vertical tab, form feed,
  carriage return and space.
\<close>

definition toLowerChar :: "char \<Rightarrow> char" where
  "toLowerChar c =
     (case map_of (zip ''ABCDEFGHIJKLMNOPQRSTUVWXYZ'' ''abcdefghijklmnopqrstuvwxyz'') c of
        Some l \<Rightarrow> l
      | None \<Rightarrow> c)"

definition toLowerCase :: "string \<Rightarrow> string" where
  "toLowerCase s = map toLowerChar s"

definition isWhiteSpace :: "char \<Rightarrow> bool" where
  "isWhiteSpace c \<longleftrightarrow>
     c = CHR 0x09 \<or> c = CHR 0x0A \<or> c = CHR 0x0B \<or> c = CHR 0x0C \<or> c = CHR 0x0D \<or> c = CHR '' ''"

definition trim :: "string \<Rightarrow> string" where
  "trim s = rev (dropWhile isWhiteSpace (rev (dropWhile isWhiteSpace s)))"

fun startsWith :: "string \<Rightarrow> string \<Rightarrow> bool" where
  "startsWith s [] = True"
| "startsWith [] (p # ps) = False"
| "startsWith (c # cs) (p # ps) = (c = p \<and> startsWith cs ps)"

fun includes_str :: "string \<Rightarrow> string \<Rightarrow> bool" where
  "includes_str [] p = (p = [])"
| "includes_str (c # cs) p = (startsWith (c # cs) p \<or> includes_str cs p)"

text \<open>
  \<^verbatim>\<open>s.split(re)[0]\<close> for a regular expression that matches runs of separator
  characters: what precedes the first separator (the whole string when there is none,
  the empty string when the string starts with one).
\<close>

definition splitHead :: "(char \<Rightarrow> bool) \<Rightarrow> string \<Rightarrow> string" where
  "splitHead sep s = takeWhile (\<lambda>c. \<not> sep c) s"

section \<open>Shell restriction engine (taint/shell-restrictions.ts)\<close>

record ShellRestrictions =
  toolNames :: "string list"
  alwaysBlocked :: "string list"
  dangerousCommands :: "string list"
  safeCommands :: "string list"

record ShellCheckResult =
  allowed :: bool
  sreason :: "string option"
  rtier :: RestrictionTier
  matchedPattern :: "string option"

definition commandContains :: "string \<Rightarrow> string \<Rightarrow> bool" where
  "commandContains command pattern = includes_str (toLowerCase command) (toLowerCase pattern)"

definition isChainChar :: "char \<Rightarrow> bool" where
  "isChainChar c \<longleftrightarrow> c = CHR '';'' \<or> c = CHR ''&'' \<or> c = CHR ''|''"

definition extractBaseCommand :: "string \<Rightarrow> string" where
  "extractBaseCommand command =
     (let trimmed = trim command;
          firstCmd = trim (splitHead isChainChar trimmed);
          parts0 = splitHead isWhiteSpace firstCmd
      in toLowerCase parts0)"

definition isShellTool :: "ShellRestrictions \<Rightarrow> string \<Rightarrow> bool" where
  "isShellTool config name \<longleftrightarrow> toLowerCase name \<in> set (map toLowerCase (toolNames config))"

definition tierName :: "RestrictionTier \<Rightarrow> string" where
  "tierName t = (case t of Permissive \<Rightarrow> ''permissive'' | Cautious \<Rightarrow> ''cautious''
                  | Restricted \<Rightarrow> ''restricted'' | Lockdown \<Rightarrow> ''lockdown'')"

text \<open>
  \<^verbatim>\<open>check\<close> of the shell engine. The \<^verbatim>\<open>default\<close> branch of its switch is outside
  the type \<open>RestrictionTier\<close>. The dash of the lockdown message is written as its three
  UTF-8 bytes.
\<close>

definition shellCheck :: "ShellRestrictions \<Rightarrow> string \<Rightarrow> RestrictionTier \<Rightarrow> ShellCheckResult" where
  "shellCheck config command t =
     (case find (commandContains command) (alwaysBlocked config) of
        Some pattern \<Rightarrow>
          \<lparr> allowed = False,
            sreason = Some (''Command matches always-blocked pattern: '' @ [CHR 0x22] @ pattern @ [CHR 0x22]),
            rtier = t, matchedPattern = Some pattern \<rparr>
      | None \<Rightarrow>
         (case t of
            Permissive \<Rightarrow> \<lparr> allowed = True, sreason = None, rtier = t, matchedPattern = None \<rparr>
          | Cautious \<Rightarrow>
             (case find (commandContains command) (dangerousCommands config) of
                Some pattern \<Rightarrow>
                  \<lparr> allowed = False,
                    sreason = Some (''Taint level reduced to '' @ [CHR 0x22] @ ''cautious'' @ [CHR 0x22]
                       @ '' tier. Dangerous command blocked: '' @ [CHR 0x22] @ pattern @ [CHR 0x22]),
                    rtier = t, matchedPattern = Some pattern \<rparr>
              | None \<Rightarrow> \<lparr> allowed = True, sreason = None, rtier = t, matchedPattern = None \<rparr>)
          | Restricted \<Rightarrow>
             (let baseCmd = extractBaseCommand command;
                  isSafe = list_ex (\<lambda>safe. baseCmd = splitHead isWhiteSpace (toLowerCase safe))
                             (safeCommands config)
              in if isSafe then \<lparr> allowed = True, sreason = None, rtier = t, matchedPattern = None \<rparr>
                 else
                  \<lparr> allowed = False,
                    sreason = Some (''Taint level reduced to '' @ [CHR 0x22] @ ''restricted'' @ [CHR 0x22]
                       @ '' tier. Only safe commands are allowed (ls, cat, echo, etc.). Command ''
                       @ [CHR 0x22] @ baseCmd @ [CHR 0x22] @ '' is not in the safe list.''),
                    rtier = t, matchedPattern = None \<rparr>)
          | Lockdown \<Rightarrow>
              \<lparr> allowed = False,
                sreason = Some (''Taint level critically low '' @ [CHR 0xE2, CHR 0x80, CHR 0x94]
                   @ '' LOCKDOWN. All shell commands are blocked. The agent has accessed too many untrusted websites.''),
                rtier = t, matchedPattern = None \<rparr>))"

text \<open>
  The wording of the specification, to compare \<open>extractBaseCommand\<close> with: the first
  white-space-delimited word of a string, and the portion of a command before its first
  chaining character.
\<close>

definition firstWord :: "string \<Rightarrow> string" where
  "firstWord s = takeWhile (\<lambda>c. \<not> isWhiteSpace c) (dropWhile isWhiteSpace s)"

definition beforeChain :: "string \<Rightarrow> string" where
  "beforeChain s = takeWhile (\<lambda>c. \<not> isChainChar c) s"

definition equalsIgnoreCase :: "string \<Rightarrow> string \<Rightarrow> bool" where
  "equalsIgnoreCase a b \<longleftrightarrow> toLowerCase a = toLowerCase b"


section \<open>URL trust detector (taint/url-trust.ts)\<close>

text \<open>
  The values of a tool input (\<^verbatim>\<open>Record<string, unknown>\<close>): only strings are
  inspected.
\<close>

datatype JsValue = JString string | JNumber int | JBoolean bool | JNull | JObject

type_synonym ToolInput = "string \<rightharpoonup> JsValue"

record TrustedUrls =
  patterns :: "string list"

record UrlCheckResult =
  urlFound :: bool
  rurl :: "string option"
  rdomain :: "string option"
  trusted :: bool
  umatchedPattern :: "string option"

text \<open>
  \<^verbatim>\<open>extractDomain\<close>. The platform's URL parser is a parameter: \<open>parseHostname u\<close> is
  \<^verbatim>\<open>new URL(u).hostname\<close>, and \<open>None\<close> when the constructor throws.
\<close>

definition extractDomain :: "(string \<Rightarrow> string option) \<Rightarrow> string \<Rightarrow> string option" where
  "extractDomain parseHostname u =
     (let normalizedUrl =
            (if \<not> startsWith u ''http://'' \<and> \<not> startsWith u ''https://''
             then ''https://'' @ u else u)
      in case parseHostname normalizedUrl of
           None \<Rightarrow> None
         | Some hostname \<Rightarrow> Some (toLowerCase hostname))"

definition urlFields :: "string list" where
  "urlFields = [''url'', ''href'', ''link'', ''target'', ''src'', ''source'', ''uri'', ''endpoint'']"

definition commandFields :: "string list" where
  "commandFields = [''command'', ''cmd'', ''script'', ''input'']"

text \<open>The first loop of \<^verbatim>\<open>extractUrlFromContext\<close>: the first field that holds a
  non-empty string.\<close>

fun directUrl :: "ToolInput \<Rightarrow> string list \<Rightarrow> string option" where
  "directUrl toolInput [] = None"
| "directUrl toolInput (field # rest) =
     (case toolInput field of
        Some (JString v) \<Rightarrow> if length v > 0 then Some v else directUrl toolInput rest
      | _ \<Rightarrow> directUrl toolInput rest)"

text \<open>
  The regular expression \<^verbatim>\<open>/https?:\/\/[^\s"'`<>]+/\<close>: \<open>urlChar\<close> is its character
  class, \<open>matchUrlAt\<close> its match at the start of a string and \<open>findUrl\<close> its leftmost match.
\<close>

definition urlChar :: "char \<Rightarrow> bool" where
  "urlChar c \<longleftrightarrow>
     \<not> (isWhiteSpace c \<or> c = CHR 0x22 \<or> c = CHR 0x27 \<or> c = CHR 0x60 \<or> c = CHR ''<'' \<or> c = CHR ''>'')"

definition matchUrlAt :: "string \<Rightarrow> string option" where
  "matchUrlAt s =
     (if startsWith s ''https://'' then
        (let body = takeWhile urlChar (drop 8 s)
         in if body = [] then None else Some (''https://'' @ body))
      else if startsWith s ''http://'' then
        (let body = takeWhile urlChar (drop 7 s)
         in if body = [] then None else Some (''http://'' @ body))
      else None)"

fun findUrl :: "string \<Rightarrow> string option" where
  "findUrl [] = None"
| "findUrl (c # cs) =
     (case matchUrlAt (c # cs) of Some m \<Rightarrow> Some m | None \<Rightarrow> findUrl cs)"

text \<open>The second loop: the first command field that is a string with a URL in it.\<close>

fun embeddedUrl :: "ToolInput \<Rightarrow> string list \<Rightarrow> string option" where
  "embeddedUrl toolInput [] = None"
| "embeddedUrl toolInput (field # rest) =
     (case toolInput field of
        Some (JString v) \<Rightarrow>
          (case findUrl v of Some m \<Rightarrow> Some m | None \<Rightarrow> embeddedUrl toolInput rest)
      | _ \<Rightarrow> embeddedUrl toolInput rest)"

definition extractUrlFromContext :: "ToolInput \<Rightarrow> string option" where
  "extractUrlFromContext toolInput =
     (case directUrl toolInput urlFields of
        Some v \<Rightarrow> Some v
      | None \<Rightarrow> embeddedUrl toolInput commandFields)"

text \<open>
  \<^verbatim>\<open>globToRegex\<close> builds the source of a regular expression; the model builds its
  tokens: \<^verbatim>\<open>.*\<close>, \<^verbatim>\<open>[^.]*\<close>, \<^verbatim>\<open>.\<close> and a literal character (escaped with a
  backslash when it is one of \<^verbatim>\<open>.+^${}()|[]\\<close>, plain otherwise: the same literal).
\<close>

datatype RegexToken = AnyStar | NonDotStar | AnyChar | Literal char

fun globToRegex :: "string \<Rightarrow> RegexToken list" where
  "globToRegex [] = []"
| "globToRegex (c # cs) =
     (if c = CHR ''*'' then
        (case cs of
           [] \<Rightarrow> NonDotStar # globToRegex cs
         | d # ds \<Rightarrow> if d = CHR ''*'' then AnyStar # globToRegex ds
                     else NonDotStar # globToRegex cs)
      else if c = CHR ''?'' then AnyChar # globToRegex cs
      else Literal c # globToRegex cs)"

text \<open>
  \<^verbatim>\<open>regex.test(domain)\<close> for \<^verbatim>\<open>new RegExp(`^${regexStr}$`, 'i')\<close>: the whole string
  is matched, letters without regard to case, and \<^verbatim>\<open>.\<close> matches any character but a
  line terminator.
\<close>

definition isLineTerminator :: "char \<Rightarrow> bool" where
  "isLineTerminator c \<longleftrightarrow> c = CHR 0x0A \<or> c = CHR 0x0D"

definition isDot :: "char \<Rightarrow> bool" where
  "isDot c \<longleftrightarrow> c = CHR ''.''"

fun regexTest :: "RegexToken list \<Rightarrow> string \<Rightarrow> bool" where
  "regexTest [] s = (s = [])"
| "regexTest (Literal c # r) [] = False"
| "regexTest (Literal c # r) (d # ds) = (toLowerChar c = toLowerChar d \<and> regexTest r ds)"
| "regexTest (AnyChar # r) [] = False"
| "regexTest (AnyChar # r) (d # ds) = (\<not> isLineTerminator d \<and> regexTest r ds)"
| "regexTest (AnyStar # r) [] = regexTest r []"
| "regexTest (AnyStar # r) (d # ds) =
     (regexTest r (d # ds) \<or> (\<not> isLineTerminator d \<and> regexTest (AnyStar # r) ds))"
| "regexTest (NonDotStar # r) [] = regexTest r []"
| "regexTest (NonDotStar # r) (d # ds) =
     (regexTest r (d # ds) \<or> (\<not> isDot d \<and> regexTest (NonDotStar # r) ds))"

definition matchesGlobPattern :: "string \<Rightarrow> string \<Rightarrow> bool" where
  "matchesGlobPattern dmn pattern = regexTest (globToRegex pattern) dmn"


text \<open>\<^verbatim>\<open>check\<close> of the URL trust checker. \<^verbatim>\<open>!domain\<close> holds for \<^verbatim>\<open>null\<close> and for
  the empty string.\<close>

definition urlCheck ::
  "(string \<Rightarrow> string option) \<Rightarrow> TrustedUrls \<Rightarrow> ToolInput \<Rightarrow> UrlCheckResult" where
  "urlCheck parseHostname trustedUrls toolInput =
     (case extractUrlFromContext toolInput of
        None \<Rightarrow>
          \<lparr> urlFound = False, rurl = None, rdomain = None, trusted = True, umatchedPattern = None \<rparr>
      | Some u \<Rightarrow>
         (case extractDomain parseHostname u of
            None \<Rightarrow>
              \<lparr> urlFound = True, rurl = Some u, rdomain = None, trusted = False,
                umatchedPattern = None \<rparr>
          | Some dmn \<Rightarrow>
              if dmn = [] then
                \<lparr> urlFound = True, rurl = Some u, rdomain = None, trusted = False,
                  umatchedPattern = None \<rparr>
              else
               (case find (matchesGlobPattern dmn) (patterns trustedUrls) of
                  Some pattern \<Rightarrow>
                    \<lparr> urlFound = True, rurl = Some u, rdomain = Some dmn, trusted = True,
                      umatchedPattern = Some pattern \<rparr>
                | None \<Rightarrow>
                    \<lparr> urlFound = True, rurl = Some u, rdomain = Some dmn, trusted = False,
                      umatchedPattern = None \<rparr>)))"

section \<open>Before-tool-call hook (hooks/before-tool-call/handler.ts)\<close>

record ClawTaintConfig =
  globalEnabled :: "bool option"
  taint :: TaintConfig
  trustedUrls :: TrustedUrls
  shellRestrictions :: ShellRestrictions

record ToolCallContext =
  toolName :: string
  toolInput :: "ToolInput option"
  params :: "ToolInput option"
  ctimestamp :: int

record BlockMetadata =
  category :: string
  severity :: string
  mreason :: string
  taintLevel :: int
  mtier :: RestrictionTier

record BeforeToolCallResult =
  block :: bool
  blockReason :: "string option"
  metadata :: "BlockMetadata option"

definition handlerCommandFields :: "string list" where
  "handlerCommandFields = [''command'', ''cmd'', ''script'', ''input'', ''code'', ''content'']"

fun extractCommandFrom :: "ToolInput \<Rightarrow> string list \<Rightarrow> string option" where
  "extractCommandFrom inp [] = None"
| "extractCommandFrom inp (field # rest) =
     (case inp field of
        Some (JString v) \<Rightarrow>
          if length (trim v) > 0 then Some (trim v) else extractCommandFrom inp rest
      | _ \<Rightarrow> extractCommandFrom inp rest)"

definition extractCommand :: "ToolInput \<Rightarrow> string option" where
  "extractCommand inp = extractCommandFrom inp handlerCommandFields"

text \<open>A value inside a template literal: \<^verbatim>\<open>undefined\<close> prints as its name.\<close>

definition showOpt :: "string option \<Rightarrow> string" where
  "showOpt x = (case x of None \<Rightarrow> ''undefined'' | Some v \<Rightarrow> v)"

text \<open>\<^verbatim>\<open>a || b\<close> on optional strings: \<open>a\<close> when it is a non-empty string.\<close>

definition orElse :: "string option \<Rightarrow> string option \<Rightarrow> string option" where
  "orElse a b = (case a of None \<Rightarrow> b | Some v \<Rightarrow> if v = [] then b else a)"

text \<open>
  Step 2 of the handler: the URL check and the update of the taint level. \<open>now\<close> is the
  reading of the clock inside the tracker.
\<close>

definition updateTaint ::
  "ClawTaintConfig \<Rightarrow> int \<Rightarrow> UrlCheckResult \<Rightarrow> TaintState \<Rightarrow> TaintState" where
  "updateTaint config now uc state =
     (if urlFound uc then
        (if trusted uc then
           snd (applyRecovery (taint config) now
                  (''Accessed trusted URL: '' @ showOpt (rdomain uc)) (rurl uc) (rdomain uc) state)
         else
           snd (applyPenalty (taint config) now
                  (''Accessed untrusted URL: '' @ showOpt (orElse (rdomain uc) (rurl uc)))
                  (rurl uc) (rdomain uc) state))
      else state)"

text \<open>\<^verbatim>\<open>context.toolInput || context.params || {}\<close>: an object is truthy, also when
  it is empty.\<close>

definition contextInput :: "ToolCallContext \<Rightarrow> ToolInput" where
  "contextInput ctx =
     (case toolInput ctx of
        Some i \<Rightarrow> i
      | None \<Rightarrow> (case params ctx of Some p \<Rightarrow> p | None \<Rightarrow> Map.empty))"

text \<open>The handler, on the state of the tracker it was created with.\<close>

definition handler ::
  "ClawTaintConfig \<Rightarrow> (string \<Rightarrow> string option) \<Rightarrow> int \<Rightarrow> ToolCallContext \<Rightarrow> TaintState
     \<Rightarrow> BeforeToolCallResult \<times> TaintState" where
  "handler config parseHostname now ctx state =
     (let inp = contextInput ctx
      in if globalEnabled config = Some False then
           (\<lparr> block = False, blockReason = None, metadata = None \<rparr>, state)
         else
          (let uc = urlCheck parseHostname (trustedUrls config) inp;
               state' = updateTaint config now uc state;
               allow = (\<lparr> block = False, blockReason = None, metadata = None \<rparr>, state')
           in if isShellTool (shellRestrictions config) (toolName ctx) then
                (case extractCommand inp of
                   None \<Rightarrow> allow
                 | Some command \<Rightarrow>
                    (let currentTier = getTier state';
                         sc = shellCheck (shellRestrictions config) command currentTier
                     in if \<not> allowed sc then
                          (\<lparr> block = True, blockReason = sreason sc,
                             metadata = Some
                               \<lparr> category = ''shell-restriction'',
                                 severity = (if currentTier = Lockdown then ''critical'' else ''high''),
                                 mreason = (case orElse (sreason sc) None of
                                              Some r \<Rightarrow> r
                                            | None \<Rightarrow> ''Shell command blocked by taint level restrictions''),
                                 taintLevel = getLevel state',
                                 mtier = currentTier \<rparr> \<rparr>,
                           state')
                        else allow))
              else allow))"

section \<open>Histories and example configurations\<close>

text \<open>
  The configuration of the repository's tests, with the default thresholds, penalty 10 and
  floor 0; the initial level and the recovery amount are parameters.
\<close>

definition exampleConfig :: "int \<Rightarrow> int \<Rightarrow> TaintConfig" where
  "exampleConfig ini rcv =
     \<lparr> initialLevel = ini, penaltyPerUntrustedUrl = 10, recoveryPerTrustedUrl = rcv,
       minimumLevel = 0, thresholds = defaultThresholds \<rparr>"

text \<open>The calls that push an event: every penalty, and a recovery when the recovery amount
  is not 0.\<close>

definition appends :: "TaintConfig \<Rightarrow> TrackerCall \<Rightarrow> bool" where
  "appends config c =
     (case c of CallPenalty now rsn u d \<Rightarrow> True
      | CallRecovery now rsn u d \<Rightarrow> recoveryPerTrustedUrl config \<noteq> 0
      | CallReset \<Rightarrow> False)"

text \<open>
  A history is chained from a level when each event starts at the level the event before it
  ended at, the first one at the given level; \<open>lastLevel\<close> is the level it ends at.
\<close>

fun chained :: "int \<Rightarrow> TaintEvent list \<Rightarrow> bool" where
  "chained l [] = True"
| "chained l (e # es) = (previousLevel e = l \<and> chained (newLevel e) es)"

fun lastLevel :: "int \<Rightarrow> TaintEvent list \<Rightarrow> int" where
  "lastLevel l [] = l"
| "lastLevel l (e # es) = lastLevel (newLevel e) es"

text \<open>What a call passes to the event it creates, and the same fields of an event.\<close>

definition callLabel :: "TrackerCall \<Rightarrow> EventType \<times> int \<times> string \<times> string option \<times> string option" where
  "callLabel c =
     (case c of CallPenalty now rsn u d \<Rightarrow> (Penalty, now, rsn, u, d)
      | CallRecovery now rsn u d \<Rightarrow> (Recovery, now, rsn, u, d)
      | CallReset \<Rightarrow> (Penalty, 0, [], None, None))"

definition eventLabel :: "TaintEvent \<Rightarrow> EventType \<times> int \<times> string \<times> string option \<times> string option" where
  "eventLabel e = (etype e, timestamp e, reason e, url e, domain e)"

text \<open>A penalty, a recovery and a penalty.\<close>

definition exampleCalls :: "TrackerCall list" where
  "exampleCalls =
     [CallPenalty 1 ''a'' None None, CallRecovery 2 ''b'' None None, CallPenalty 3 ''c'' None None]"

text \<open>The state agrees with its history.\<close>

definition consistent :: "TaintConfig \<Rightarrow> TaintState \<Rightarrow> bool" where
  "consistent config state \<longleftrightarrow>
     chained (initialLevel config) (events state) \<and>
     lastLevel (initialLevel config) (events state) = level state"


definition gapThresholds :: "TaintThreshold list" where
  "gapThresholds =
    [\<lparr> minTaint = 60, maxTaint = 90, tier = Permissive \<rparr>,
     \<lparr> minTaint = 10, maxTaint = 40, tier = Restricted \<rparr>]"

section \<open>Example inputs and the wording of the properties\<close>

text \<open>An excerpt of the default shell restrictions of the schema.\<close>

definition exampleShell :: ShellRestrictions where
  "exampleShell =
     \<lparr> toolNames = [''Bash'', ''shell'', ''terminal'', ''run_command'', ''execute''],
       alwaysBlocked = [''rm -rf /'', ''mkfs'', ''dd if='', '':(){:|:&};:'', ''> /dev/sda''],
       dangerousCommands = [''rm -rf'', ''rm -r'', ''rmdir'', ''DROP TABLE''],
       safeCommands = [''ls'', ''cat'', ''echo'', ''git status''] \<rparr>"

text \<open>A string that begins with white space, and a string without its trailing white
  space (the second half of \<open>trim\<close>).\<close>

definition leadingWhiteSpace :: "string \<Rightarrow> bool" where
  "leadingWhiteSpace s = (case s of [] \<Rightarrow> False | c # cs \<Rightarrow> isWhiteSpace c)"




text \<open>
  No URL in any inspected field: every URL field that holds a string holds the empty one,
  and no command field holds a string with an \<^verbatim>\<open>http(s)://\<close> URL in it.
\<close>

definition stringFieldsAll :: "(string \<Rightarrow> bool) \<Rightarrow> ToolInput \<Rightarrow> string list \<Rightarrow> bool" where
  "stringFieldsAll P inp fs =
     list_all (\<lambda>f. case inp f of Some (JString v) \<Rightarrow> P v | _ \<Rightarrow> True) fs"

definition noUrlInFields :: "ToolInput \<Rightarrow> bool" where
  "noUrlInFields inp \<longleftrightarrow>
     stringFieldsAll (\<lambda>v. v = []) inp urlFields \<and>
     stringFieldsAll (\<lambda>v. findUrl v = None) inp commandFields"

text \<open>The result of the URL check when there is no URL, and the failure of the domain
  extraction as the check sees it: \<^verbatim>\<open>!domain\<close>.\<close>

definition noUrlResult :: UrlCheckResult where
  "noUrlResult =
     \<lparr> urlFound = False, rurl = None, rdomain = None, trusted = True, umatchedPattern = None \<rparr>"

definition domainFails :: "(string \<Rightarrow> string option) \<Rightarrow> string \<Rightarrow> bool" where
  "domainFails parseHostname u \<longleftrightarrow>
     extractDomain parseHostname u = None \<or> extractDomain parseHostname u = Some []"

text \<open>A small host parser for the examples: what follows the scheme, up to the first of
  \<open>/ : ? #\<close>; it fails when that is empty or holds a space.\<close>

definition exampleParse :: "string \<Rightarrow> string option" where
  "exampleParse u =
     (let rest = (if startsWith u ''https://'' then drop 8 u
                  else if startsWith u ''http://'' then drop 7 u else u);
          host = takeWhile (\<lambda>c. c \<noteq> CHR ''/'' \<and> c \<noteq> CHR '':'' \<and> c \<noteq> CHR ''?'' \<and> c \<noteq> CHR ''#'') rest
      in if host = [] \<or> CHR '' '' \<in> set host then None else Some host)"

definition examplePlugin :: ClawTaintConfig where
  "examplePlugin =
     \<lparr> globalEnabled = Some True, taint = exampleConfig 100 0,
       trustedUrls = \<lparr> patterns = [''*.github.com'', ''npmjs.com''] \<rparr>,
       shellRestrictions = \<lparr> toolNames = [''Bash''], alwaysBlocked = [''mkfs''],
         dangerousCommands = [''rm -rf''], safeCommands = [''ls''] \<rparr> \<rparr>"

definition plainContext :: ToolCallContext where
  "plainContext =
     \<lparr> toolName = ''Bash'', toolInput = Some [''command'' \<mapsto> JString ''ls -la'', ''count'' \<mapsto> JNumber 42],
       params = None, ctimestamp = 0 \<rparr>"

definition brokenInput :: ToolInput where
  "brokenInput = [''url'' \<mapsto> JString ''http://bad host/'']"

section \<open>Properties of tier resolution\<close>



lemma find_sorted_none:
  "find (inRange l) (sortedThresholds ths) = None \<longleftrightarrow> (\<forall>t \<in> set ths. \<not> inRange l t)"
  by (auto simp: sortedThresholds_def find_None_iff)












text \<open>
  C7. When no configured range contains the level, \<open>resolveTier\<close> falls back: a level at or
  below 0 resolves to lockdown, a level at or above 100 to permissive.
\<close>

theorem resolveTier_fallback:
  assumes "\<forall>t \<in> set ths. \<not> inRange l t"
  shows "(l \<le> 0 \<longrightarrow> resolveTier l ths = Lockdown) \<and> (100 \<le> l \<longrightarrow> resolveTier l ths = Permissive)"
  using assms find_sorted_none[of l ths] by (auto simp: resolveTier_def)

theorem resolveTier_fallback_witness:
  "resolveTier (-5) gapThresholds = Lockdown \<and> resolveTier 0 gapThresholds = Lockdown \<and>
   resolveTier 100 gapThresholds = Permissive \<and> resolveTier 120 gapThresholds = Permissive"
  using resolveTier_fallback[of gapThresholds "-5"] resolveTier_fallback[of gapThresholds 0]
    resolveTier_fallback[of gapThresholds 100] resolveTier_fallback[of gapThresholds 120]
  by (simp add: gapThresholds_def inRange_def)

section \<open>Properties of the tracker\<close>

lemma clampLevel_bounds:
  "minimumLevel config \<le> 100 \<Longrightarrow> minimumLevel config \<le> clampLevel config l \<and> clampLevel config l \<le> 100"
  by (simp add: clampLevel_def)

lemma level_applyPenalty:
  "level (snd (applyPenalty config now rsn u d state)) =
     clampLevel config (level state - penaltyPerUntrustedUrl config)"
  by (simp add: applyPenalty_def Let_def)

lemma level_applyRecovery:
  "level (snd (applyRecovery config now rsn u d state)) =
     (if recoveryPerTrustedUrl config = 0 then level state
      else clampLevel config (level state + recoveryPerTrustedUrl config))"
  by (simp add: applyRecovery_def Let_def)

lemma level_reset: "level (reset config state) = initialLevel config"
  by (simp add: reset_def)

lemma call_bounds:
  assumes "minimumLevel config \<le> initialLevel config" "initialLevel config \<le> 100"
    and "minimumLevel config \<le> level state" "level state \<le> 100"
  shows "minimumLevel config \<le> level (call config c state) \<and> level (call config c state) \<le> 100"
proof -
  have m: "minimumLevel config \<le> 100" using assms by linarith
  show ?thesis
  proof (cases c)
    case (CallPenalty now rsn u d)
    then show ?thesis using clampLevel_bounds[OF m] by (simp add: level_applyPenalty)
  next
    case (CallRecovery now rsn u d)
    then show ?thesis using clampLevel_bounds[OF m] assms(3,4) by (simp add: level_applyRecovery)
  next
    case CallReset
    then show ?thesis using assms(1,2) by (simp add: level_reset)
  qed
qed

lemma calls_bounds:
  assumes "minimumLevel config \<le> initialLevel config" "initialLevel config \<le> 100"
  shows "minimumLevel config \<le> level state \<Longrightarrow> level state \<le> 100 \<Longrightarrow>
         minimumLevel config \<le> level (calls config cs state) \<and> level (calls config cs state) \<le> 100"
proof (induction cs arbitrary: state)
  case Nil
  then show ?case by simp
next
  case (Cons c cs)
  have "minimumLevel config \<le> level (call config c state) \<and> level (call config c state) \<le> 100"
    using call_bounds[OF assms Cons.prems] .
  then show ?case using Cons.IH by simp
qed

text \<open>
  C5. For a tracker whose initial level lies between the floor and 100, the level stays
  between the floor and 100 after every sequence of \<open>applyPenalty\<close>, \<open>applyRecovery\<close> and
  \<open>reset\<close> calls. \<open>applyPenalty\<close> sets the level to the old level minus the penalty, clamped
  to the floor and to 100; \<open>applyRecovery\<close> to the old level plus the recovery amount,
  clamped the same way (and leaves it alone when the amount is 0). The witness is the
  penalty of 10 from level 5 with floor 0, which yields 0, and a recovery at 100, which
  stays at 100.
\<close>

theorem level_stays_in_range:
  assumes "minimumLevel config \<le> initialLevel config" "initialLevel config \<le> 100"
  shows "minimumLevel config \<le> level (calls config cs (createTaintTracker config)) \<and>
         level (calls config cs (createTaintTracker config)) \<le> 100 \<and>
         level (snd (applyPenalty config now rsn u d state)) =
           max (minimumLevel config) (min 100 (level state - penaltyPerUntrustedUrl config)) \<and>
         level (snd (applyRecovery config now rsn u d state)) =
           (if recoveryPerTrustedUrl config = 0 then level state
            else max (minimumLevel config) (min 100 (level state + recoveryPerTrustedUrl config)))"
proof -
  have "level (createTaintTracker config) = initialLevel config"
    by (simp add: createTaintTracker_def)
  then have "minimumLevel config \<le> level (calls config cs (createTaintTracker config)) \<and>
         level (calls config cs (createTaintTracker config)) \<le> 100"
    using calls_bounds[OF assms, of "createTaintTracker config" cs] assms by simp
  then show ?thesis
    by (simp add: level_applyPenalty level_applyRecovery clampLevel_def)
qed

theorem level_stays_in_range_witness:
  "minimumLevel (exampleConfig 5 5) \<le> initialLevel (exampleConfig 5 5) \<and>
   initialLevel (exampleConfig 5 5) \<le> 100 \<and>
   level (calls (exampleConfig 5 5) [CallPenalty 1 ''a'' None None] (createTaintTracker (exampleConfig 5 5))) = 0 \<and>
   level (snd (applyPenalty (exampleConfig 5 5) 1 ''a'' None None (createTaintTracker (exampleConfig 5 5)))) = 0 \<and>
   level (snd (applyRecovery (exampleConfig 5 5) 1 ''a'' None None (createTaintTracker (exampleConfig 100 5)))) = 100"
  using level_stays_in_range[of "exampleConfig 5 5" "[CallPenalty 1 ''a'' None None]" 1 "''a''" None None
      "createTaintTracker (exampleConfig 5 5)"]
    level_stays_in_range[of "exampleConfig 5 5" "[]" 1 "''a''" None None
      "createTaintTracker (exampleConfig 100 5)"]
  by (simp add: exampleConfig_def createTaintTracker_def)

text \<open>
  C10. The event returned by \<open>applyPenalty\<close> carries the configured penalty as its amount,
  also when the clamp at the floor made the change of level smaller: from a level within
  floor..100 that the penalty would take below the floor, the level drops by
  \<open>level - floor\<close> only, and the amount differs from \<open>previousLevel - newLevel\<close>.
\<close>

theorem penalty_amount_is_configured:
  "amount (fst (applyPenalty config now rsn u d state)) = penaltyPerUntrustedUrl config \<and>
   (minimumLevel config \<le> level state \<and> level state \<le> 100 \<and>
    level state - penaltyPerUntrustedUrl config < minimumLevel config \<longrightarrow>
      previousLevel (fst (applyPenalty config now rsn u d state))
        - newLevel (fst (applyPenalty config now rsn u d state)) = level state - minimumLevel config \<and>
      amount (fst (applyPenalty config now rsn u d state)) \<noteq>
        previousLevel (fst (applyPenalty config now rsn u d state))
          - newLevel (fst (applyPenalty config now rsn u d state)))"
  by (auto simp: applyPenalty_def Let_def clampLevel_def)

theorem penalty_amount_is_configured_witness:
  "amount (fst (applyPenalty (exampleConfig 5 0) 1 ''a'' None None (createTaintTracker (exampleConfig 5 0)))) = 10 \<and>
   previousLevel (fst (applyPenalty (exampleConfig 5 0) 1 ''a'' None None (createTaintTracker (exampleConfig 5 0))))
     - newLevel (fst (applyPenalty (exampleConfig 5 0) 1 ''a'' None None (createTaintTracker (exampleConfig 5 0)))) = 5"
  using penalty_amount_is_configured[of "exampleConfig 5 0" 1 "''a''" None None "createTaintTracker (exampleConfig 5 0)"]
  by (simp add: exampleConfig_def createTaintTracker_def)



subsection \<open>The history\<close>

lemma chained_snoc:
  "chained l (es @ [e]) \<longleftrightarrow> chained l es \<and> previousLevel e = lastLevel l es"
  by (induction es arbitrary: l) auto

lemma lastLevel_snoc: "lastLevel l (es @ [e]) = newLevel e"
  by (induction es arbitrary: l) auto
lemma consistent_create: "consistent config (createTaintTracker config)"
  by (simp add: consistent_def createTaintTracker_def)

lemma penalty_step:
  assumes "consistent config state"
  shows "consistent config (snd (applyPenalty config now rsn u d state)) \<and>
         map eventLabel (events (snd (applyPenalty config now rsn u d state)))
           = map eventLabel (events state) @ [(Penalty, now, rsn, u, d)]"
  using assms
  by (simp add: consistent_def applyPenalty_def Let_def chained_snoc lastLevel_snoc eventLabel_def)

lemma recovery_step:
  assumes "consistent config state"
  shows "consistent config (snd (applyRecovery config now rsn u d state)) \<and>
         map eventLabel (events (snd (applyRecovery config now rsn u d state)))
           = map eventLabel (events state) @
               (if recoveryPerTrustedUrl config \<noteq> 0 then [(Recovery, now, rsn, u, d)] else [])"
  using assms
  by (simp add: consistent_def applyRecovery_def Let_def chained_snoc lastLevel_snoc eventLabel_def)

lemma call_step:
  assumes "consistent config state" "c \<noteq> CallReset"
  shows "consistent config (call config c state) \<and>
         map eventLabel (events (call config c state))
           = map eventLabel (events state) @ map callLabel (filter (appends config) [c])"
proof (cases c)
  case (CallPenalty now rsn u d)
  then show ?thesis using penalty_step[OF assms(1)] by (simp add: appends_def callLabel_def)
next
  case (CallRecovery now rsn u d)
  then show ?thesis using recovery_step[OF assms(1)] by (simp add: appends_def callLabel_def)
next
  case CallReset
  then show ?thesis using assms(2) by simp
qed

lemma calls_steps:
  "consistent config state \<Longrightarrow> CallReset \<notin> set cs \<Longrightarrow>
   consistent config (calls config cs state) \<and>
   map eventLabel (events (calls config cs state))
     = map eventLabel (events state) @ map callLabel (filter (appends config) cs)"
proof (induction cs arbitrary: state)
  case Nil
  then show ?case by simp
next
  case (Cons c cs)
  from Cons.prems have c: "c \<noteq> CallReset" and cs: "CallReset \<notin> set cs" by auto
  note st = call_step[OF Cons.prems(1) c]
  from Cons.IH[OF conjunct1[OF st] cs] st show ?case by simp
qed

text \<open>
  C4 (as amended). On a fresh tracker, after a sequence of \<open>applyPenalty\<close> and
  \<open>applyRecovery\<close> calls, the history holds exactly one event for every \<open>applyPenalty\<close>
  call and for every \<open>applyRecovery\<close> call made with a recovery amount other than 0, in call
  order, and each event's \<open>previousLevel\<close> is the \<open>newLevel\<close> of the event before it (the
  initial level for the first). \<open>applyRecovery\<close> with recovery amount 0 returns an event of
  amount 0 whose two levels are the current level, and leaves the state, history included,
  as it was.
\<close>

theorem history_of_appending_calls:
  assumes "CallReset \<notin> set cs"
  shows "length (events (calls config cs (createTaintTracker config)))
           = length (filter (appends config) cs) \<and>
         map eventLabel (events (calls config cs (createTaintTracker config)))
           = map callLabel (filter (appends config) cs) \<and>
         chained (initialLevel config) (events (calls config cs (createTaintTracker config))) \<and>
         (recoveryPerTrustedUrl config = 0 \<longrightarrow>
            snd (applyRecovery config now rsn u d state) = state \<and>
            amount (fst (applyRecovery config now rsn u d state)) = 0 \<and>
            previousLevel (fst (applyRecovery config now rsn u d state)) = level state \<and>
            newLevel (fst (applyRecovery config now rsn u d state)) = level state)"
proof -
  note st = calls_steps[OF consistent_create assms, of config]
  have ev: "events (createTaintTracker config) = []" by (simp add: createTaintTracker_def)
  from st ev have m: "map eventLabel (events (calls config cs (createTaintTracker config)))
           = map callLabel (filter (appends config) cs)" by simp
  from arg_cong[OF m, of length] have "length (events (calls config cs (createTaintTracker config)))
           = length (filter (appends config) cs)" by simp
  moreover have "recoveryPerTrustedUrl config = 0 \<longrightarrow>
            snd (applyRecovery config now rsn u d state) = state \<and>
            amount (fst (applyRecovery config now rsn u d state)) = 0 \<and>
            previousLevel (fst (applyRecovery config now rsn u d state)) = level state \<and>
            newLevel (fst (applyRecovery config now rsn u d state)) = level state"
    by (simp add: applyRecovery_def)
  moreover have "chained (initialLevel config) (events (calls config cs (createTaintTracker config)))"
    using st by (simp add: consistent_def)
  ultimately show ?thesis using m by blast
qed

theorem history_of_appending_calls_witness:
  "length (events (calls (exampleConfig 100 5) exampleCalls
       (createTaintTracker (exampleConfig 100 5)))) = 3 \<and>
   length (events (calls (exampleConfig 100 0) exampleCalls
       (createTaintTracker (exampleConfig 100 0)))) = 2 \<and>
   snd (applyRecovery (exampleConfig 100 0) 2 ''b'' None None
          (createTaintTracker (exampleConfig 100 0))) = createTaintTracker (exampleConfig 100 0)"
proof -
  have nr: "CallReset \<notin> set exampleCalls"
    by (simp add: exampleCalls_def)
  have z: "recoveryPerTrustedUrl (exampleConfig 100 0) = 0"
    by (simp add: exampleConfig_def)
  note h5 = history_of_appending_calls[OF nr, of "exampleConfig 100 5"]
  note h0 = history_of_appending_calls[OF nr, of "exampleConfig 100 0" 2 "''b''" None None
      "createTaintTracker (exampleConfig 100 0)"]
  have f5: "length (filter (appends (exampleConfig 100 5)) exampleCalls) = 3"
    by (simp add: exampleCalls_def appends_def exampleConfig_def)
  have f0: "length (filter (appends (exampleConfig 100 0)) exampleCalls) = 2"
    by (simp add: exampleCalls_def appends_def exampleConfig_def)
  from h5 f5 have "length (events (calls (exampleConfig 100 5) exampleCalls
       (createTaintTracker (exampleConfig 100 5)))) = 3" by simp
  moreover from h0 f0 have "length (events (calls (exampleConfig 100 0) exampleCalls
       (createTaintTracker (exampleConfig 100 0)))) = 2" by simp
  moreover from h0 z have "snd (applyRecovery (exampleConfig 100 0) 2 ''b'' None None
          (createTaintTracker (exampleConfig 100 0))) = createTaintTracker (exampleConfig 100 0)"
    by blast
  ultimately show ?thesis by blast
qed

text \<open>
  The claim as stated fails: with recovery amount 0, one \<open>applyRecovery\<close> call on a fresh
  tracker leaves the history empty.
\<close>

theorem zero_recovery_appends_nothing:
  "\<not> (length (events (calls (exampleConfig 100 0) [CallRecovery 1 ''trusted'' None None]
          (createTaintTracker (exampleConfig 100 0)))) = 1)"
  by (simp add: applyRecovery_def exampleConfig_def createTaintTracker_def)

section \<open>Properties of the shell restriction engine\<close>

lemma startsWith_iff: "startsWith s p \<longleftrightarrow> take (length p) s = p"
  by (induction s p rule: startsWith.induct) auto






lemmas string_eval = toLowerCase_def toLowerChar_def isWhiteSpace_def isChainChar_def
  trim_def splitHead_def



subsection \<open>The restricted tier\<close>


















text \<open>
  A safe command is not trimmed before it is split: the entry \<^verbatim>\<open>" ls"\<close> has the empty
  string as its base, so it does not allow \<^verbatim>\<open>ls\<close>, and it allows a command whose own
  base is empty.
\<close>

lemma leading_space_safe_entry:
  "leadingWhiteSpace '' ls'' \<and>
   equalsIgnoreCase (firstWord (beforeChain ''ls'')) (firstWord '' ls'') \<and>
   \<not> allowed (shellCheck (exampleShell\<lparr> safeCommands := ['' ls''] \<rparr>) ''ls'' Restricted) \<and>
   allowed (shellCheck (exampleShell\<lparr> safeCommands := ['' ls''] \<rparr>) ''; reboot'' Restricted)"
  by (simp add: exampleShell_def equalsIgnoreCase_def firstWord_def beforeChain_def leadingWhiteSpace_def
      shellCheck_def commandContains_def extractBaseCommand_def string_eval)

section \<open>Properties of the URL trust detector\<close>

lemma globToRegex_single:
  "globToRegex ''*.github.com'' = NonDotStar # map Literal ''.github.com''"
  by simp

lemma globToRegex_double:
  "globToRegex ''**.github.com'' = AnyStar # map Literal ''.github.com''"
  by simp

lemma regexTest_literals:
  "regexTest (map Literal p) s \<longleftrightarrow> toLowerCase s = toLowerCase p"
  by (induction p arbitrary: s; case_tac s) (auto simp: toLowerCase_def)

lemma regexTest_AnyStar:
  "regexTest (AnyStar # r) s \<longleftrightarrow>
     (\<exists>a b. s = a @ b \<and> (\<forall>c \<in> set a. \<not> isLineTerminator c) \<and> regexTest r b)"
proof (induction s)
  case Nil
  then show ?case by simp
next
  case (Cons d ds)
  show ?case
  proof
    assume "regexTest (AnyStar # r) (d # ds)"
    then consider "regexTest r (d # ds)" | "\<not> isLineTerminator d" "regexTest (AnyStar # r) ds"
      by auto
    then show "\<exists>a b. d # ds = a @ b \<and> (\<forall>c \<in> set a. \<not> isLineTerminator c) \<and> regexTest r b"
    proof cases
      case 1
      then have "d # ds = [] @ (d # ds) \<and> (\<forall>c \<in> set []. \<not> isLineTerminator c) \<and> regexTest r (d # ds)"
        by simp
      then show ?thesis by blast
    next
      case 2
      then obtain a b where "ds = a @ b" "\<forall>c \<in> set a. \<not> isLineTerminator c" "regexTest r b"
        using Cons.IH by blast
      with 2(1) have "d # ds = (d # a) @ b \<and> (\<forall>c \<in> set (d # a). \<not> isLineTerminator c) \<and> regexTest r b"
        by simp
      then show ?thesis by blast
    qed
  next
    assume "\<exists>a b. d # ds = a @ b \<and> (\<forall>c \<in> set a. \<not> isLineTerminator c) \<and> regexTest r b"
    then obtain a b where ab: "d # ds = a @ b" "\<forall>c \<in> set a. \<not> isLineTerminator c" "regexTest r b"
      by blast
    show "regexTest (AnyStar # r) (d # ds)"
    proof (cases a)
      case Nil
      with ab have "regexTest r (d # ds)" by simp
      then show ?thesis by simp
    next
      case (Cons x a')
      with ab have "ds = a' @ b" "\<forall>c \<in> set a'. \<not> isLineTerminator c" "\<not> isLineTerminator d" by auto
      with ab(3) have "regexTest (AnyStar # r) ds" using Cons.IH by blast
      with \<open>\<not> isLineTerminator d\<close> show ?thesis by simp
    qed
  qed
qed

lemma regexTest_NonDotStar:
  "regexTest (NonDotStar # r) s \<longleftrightarrow>
     (\<exists>a b. s = a @ b \<and> (\<forall>c \<in> set a. \<not> isDot c) \<and> regexTest r b)"
proof (induction s)
  case Nil
  then show ?case by simp
next
  case (Cons d ds)
  show ?case
  proof
    assume "regexTest (NonDotStar # r) (d # ds)"
    then consider "regexTest r (d # ds)" | "\<not> isDot d" "regexTest (NonDotStar # r) ds"
      by auto
    then show "\<exists>a b. d # ds = a @ b \<and> (\<forall>c \<in> set a. \<not> isDot c) \<and> regexTest r b"
    proof cases
      case 1
      then have "d # ds = [] @ (d # ds) \<and> (\<forall>c \<in> set []. \<not> isDot c) \<and> regexTest r (d # ds)"
        by simp
      then show ?thesis by blast
    next
      case 2
      then obtain a b where "ds = a @ b" "\<forall>c \<in> set a. \<not> isDot c" "regexTest r b"
        using Cons.IH by blast
      with 2(1) have "d # ds = (d # a) @ b \<and> (\<forall>c \<in> set (d # a). \<not> isDot c) \<and> regexTest r b"
        by simp
      then show ?thesis by blast
    qed
  next
    assume "\<exists>a b. d # ds = a @ b \<and> (\<forall>c \<in> set a. \<not> isDot c) \<and> regexTest r b"
    then obtain a b where ab: "d # ds = a @ b" "\<forall>c \<in> set a. \<not> isDot c" "regexTest r b"
      by blast
    show "regexTest (NonDotStar # r) (d # ds)"
    proof (cases a)
      case Nil
      with ab have "regexTest r (d # ds)" by simp
      then show ?thesis by simp
    next
      case (Cons x a')
      with ab have "ds = a' @ b" "\<forall>c \<in> set a'. \<not> isDot c" "\<not> isDot d" by auto
      with ab(3) have "regexTest (NonDotStar # r) ds" using Cons.IH by blast
      with \<open>\<not> isDot d\<close> show ?thesis by simp
    qed
  qed
qed

lemma lower_github: "toLowerCase ''.github.com'' = ''.github.com''"
  by (simp add: toLowerCase_def toLowerChar_def)

lemma double_star_github:
  "matchesGlobPattern d ''**.github.com'' \<longleftrightarrow>
     (\<exists>a b. d = a @ b \<and> (\<forall>c \<in> set a. \<not> isLineTerminator c) \<and> toLowerCase b = ''.github.com'')"
  unfolding matchesGlobPattern_def globToRegex_double regexTest_AnyStar regexTest_literals lower_github
  by (rule refl)

lemma single_star_github:
  "matchesGlobPattern d ''*.github.com'' \<longleftrightarrow>
     (\<exists>a b. d = a @ b \<and> (\<forall>c \<in> set a. \<not> isDot c) \<and> toLowerCase b = ''.github.com'')"
  unfolding matchesGlobPattern_def globToRegex_single regexTest_NonDotStar regexTest_literals lower_github
  by (rule refl)



subsection \<open>The URL check and the handler\<close>

lemma directUrl_None:
  "directUrl inp fs = None \<longleftrightarrow> stringFieldsAll (\<lambda>v. v = []) inp fs"
  by (induction fs) (auto simp: stringFieldsAll_def split: option.splits JsValue.splits)

lemma embeddedUrl_None:
  "embeddedUrl inp fs = None \<longleftrightarrow> stringFieldsAll (\<lambda>v. findUrl v = None) inp fs"
  by (induction fs) (auto simp: stringFieldsAll_def split: option.splits JsValue.splits)

lemma extractUrlFromContext_None:
  "extractUrlFromContext inp = None \<longleftrightarrow> noUrlInFields inp"
  by (auto simp: extractUrlFromContext_def noUrlInFields_def directUrl_None[symmetric]
      embeddedUrl_None[symmetric] split: option.splits)

lemma urlCheck_no_url:
  "extractUrlFromContext inp = None \<Longrightarrow> urlCheck ph tu inp = noUrlResult"
  by (simp add: urlCheck_def noUrlResult_def)

lemma handler_no_url:
  assumes "extractUrlFromContext (contextInput ctx) = None"
  shows "snd (handler config ph now ctx state) = state"
proof -
  have "updateTaint config now (urlCheck ph (trustedUrls config) (contextInput ctx)) state = state"
    using urlCheck_no_url[OF assms] by (simp add: updateTaint_def noUrlResult_def)
  then show ?thesis
    by (simp add: handler_def Let_def split: option.splits)
qed

lemma urlCheck_domain_fails:
  assumes "extractUrlFromContext inp = Some u" "domainFails ph u"
  shows "urlCheck ph tu inp =
           \<lparr> urlFound = True, rurl = Some u, rdomain = None, trusted = False, umatchedPattern = None \<rparr>"
  using assms by (auto simp: urlCheck_def domainFails_def)

text \<open>
  C9. When no URL is found in any inspected field of the tool input, the check reports
  \<open>urlFound = False\<close> (and \<open>trusted = True\<close>), and the handler leaves the state of the tracker
  as it was. When a URL is found and the extraction of its domain fails, the check reports
  \<open>urlFound = True\<close> and \<open>trusted = False\<close>, with no domain: a result other than the one
  for no URL.
\<close>

theorem no_url_no_taint_and_fail_closed:
  "(noUrlInFields (contextInput ctx) \<longrightarrow>
      urlFound (urlCheck ph (trustedUrls config) (contextInput ctx)) = False \<and>
      trusted (urlCheck ph (trustedUrls config) (contextInput ctx)) = True \<and>
      snd (handler config ph now ctx state) = state) \<and>
   (extractUrlFromContext inp = Some u \<and> domainFails ph u \<longrightarrow>
      urlFound (urlCheck ph tu inp) = True \<and>
      trusted (urlCheck ph tu inp) = False \<and>
      rdomain (urlCheck ph tu inp) = None \<and>
      urlCheck ph tu inp \<noteq> noUrlResult)"
proof -
  have "noUrlInFields (contextInput ctx) \<longrightarrow>
      urlFound (urlCheck ph (trustedUrls config) (contextInput ctx)) = False \<and>
      trusted (urlCheck ph (trustedUrls config) (contextInput ctx)) = True \<and>
      snd (handler config ph now ctx state) = state"
    using handler_no_url[of ctx config ph now state]
      urlCheck_no_url[of "contextInput ctx" ph "trustedUrls config"]
    by (simp add: extractUrlFromContext_None noUrlResult_def)
  moreover have "extractUrlFromContext inp = Some u \<and> domainFails ph u \<longrightarrow>
      urlFound (urlCheck ph tu inp) = True \<and>
      trusted (urlCheck ph tu inp) = False \<and>
      rdomain (urlCheck ph tu inp) = None \<and>
      urlCheck ph tu inp \<noteq> noUrlResult"
    using urlCheck_domain_fails[of inp u ph tu] by (auto simp: noUrlResult_def)
  ultimately show ?thesis by blast
qed

lemma plain_no_url: "noUrlInFields (contextInput plainContext)"
  by code_simp

lemma broken_url: "extractUrlFromContext brokenInput = Some ''http://bad host/''"
  by code_simp

lemma broken_fails: "domainFails exampleParse ''http://bad host/''"
  by code_simp

theorem no_url_no_taint_and_fail_closed_witness:
  "snd (handler examplePlugin exampleParse 7 plainContext (createTaintTracker (taint examplePlugin)))
     = createTaintTracker (taint examplePlugin) \<and>
   urlFound (urlCheck exampleParse (trustedUrls examplePlugin) brokenInput) = True \<and>
   trusted (urlCheck exampleParse (trustedUrls examplePlugin) brokenInput) = False \<and>
   urlCheck exampleParse (trustedUrls examplePlugin) brokenInput \<noteq> noUrlResult"
  using no_url_no_taint_and_fail_closed[of plainContext exampleParse examplePlugin 7
      "createTaintTracker (taint examplePlugin)" brokenInput "''http://bad host/''"
      "trustedUrls examplePlugin"]
    plain_no_url broken_url broken_fails
  by blast

end
